theory Spec2Isabelle
  imports Complex_Main
begin

section \<open>Errors\<close>

text \<open>
  The Go runtime panics of the modelled functions (an index or a slice bound out of
  range, a method called on a nil pointer or nil interface) and the process exit of
  \<open>log.Fatal\<close>, as values. \<open>Fatal\<close> carries the logged message.
\<close>

datatype error = IndexOutOfRange | SliceOutOfRange | NilDereference | Fatal string

section \<open>Package sequencelabeler: the label decoder\<close>

text \<open>
  Modelled from the spec: \<open>tokenizers.StringOffsetsPair\<close>, which \<open>TokenLabel\<close> embeds and
  another package declares: the text of a token with its start and end character
  offsets. The decoder reads its fields \<open>String\<close>, \<open>Offsets.Start\<close> and \<open>Offsets.End\<close>; the
  offsets are Go \<open>int\<close>s that are copied and never computed with. A Go string is a byte
  sequence: \<open>Label[0]\<close> is its first byte and \<open>Label[2:]\<close> drops two bytes, so labels are
  \<open>char list\<close>s.
\<close>

record OffsetsType =
  Start :: int
  End :: int

record TokenLabel =
  String :: string
  Offsets :: OffsetsType
  Label :: string

text \<open>
  The local variables of \<open>mergeEntities\<close> that live across the iterations of its loop:
  the output slice \<open>newTokens\<close>, the in-progress entity \<open>buf\<close> and the byte buffer
  \<open>text\<close> (here \<open>textbuf\<close>).
\<close>

record merge_state =
  newTokens :: "TokenLabel list"
  buf :: TokenLabel
  textbuf :: string

definition empty_TokenLabel :: TokenLabel where
  "empty_TokenLabel = \<lparr>String = [], Offsets = \<lparr>Start = 0, End = 0\<rparr>, Label = []\<rparr>"

definition merge_init :: merge_state where
  "merge_init = \<lparr>newTokens = [], buf = empty_TokenLabel, textbuf = []\<rparr>"

text \<open>
  One iteration of the loop of \<open>mergeEntities\<close>: the \<open>switch token.Label[0]\<close>. Indexing
  an empty label panics; so does \<open>Label[2:]\<close> on a label shorter than two bytes. The
  switch has no default case.
\<close>

definition merge_step :: "merge_state \<Rightarrow> TokenLabel \<Rightarrow> error + merge_state" where
  "merge_step st token =
     (case Label token of
        [] \<Rightarrow> Inl IndexOutOfRange
      | c # _ \<Rightarrow>
          if c = CHR ''O'' then
            Inr (st\<lparr>newTokens := newTokens st @ [token]\<rparr>)
          else if c = CHR ''S'' then
            (if length (Label token) < 2 then Inl SliceOutOfRange
             else Inr (st\<lparr>newTokens := newTokens st @ [token\<lparr>Label := drop 2 (Label token)\<rparr>]\<rparr>))
          else if c = CHR ''B'' then
            (if length (Label token) < 2 then Inl SliceOutOfRange
             else Inr (st\<lparr>textbuf := String token,
                          buf := empty_TokenLabel
                            \<lparr>Label := drop 2 (Label token),
                             Offsets := (Offsets empty_TokenLabel)\<lparr>Start := Start (Offsets token)\<rparr>\<rparr>\<rparr>))
          else if c = CHR ''I'' then
            Inr (st\<lparr>textbuf := textbuf st @ '' '' @ String token\<rparr>)
          else if c = CHR ''E'' then
            (let text' = textbuf st @ '' '' @ String token;
                 buf' = (buf st)\<lparr>String := text',
                                 Offsets := (Offsets (buf st))\<lparr>End := End (Offsets token)\<rparr>\<rparr>
             in Inr (st\<lparr>textbuf := text', buf := buf', newTokens := newTokens st @ [buf']\<rparr>))
          else Inr st)"

fun merge_loop :: "merge_state \<Rightarrow> TokenLabel list \<Rightarrow> error + merge_state" where
  "merge_loop st [] = Inr st"
| "merge_loop st (token # tokens) =
     (case merge_step st token of
        Inl e \<Rightarrow> Inl e
      | Inr st' \<Rightarrow> merge_loop st' tokens)"

definition mergeEntities :: "TokenLabel list \<Rightarrow> error + TokenLabel list" where
  "mergeEntities tokens =
     (case merge_loop merge_init tokens of
        Inl e \<Rightarrow> Inl e
      | Inr st \<Rightarrow> Inr (newTokens st))"

text \<open>
  \<open>filterNotEntities\<close> keeps, in order, the tokens whose label is not exactly \<open>O\<close>.
\<close>

fun filterNotEntities :: "TokenLabel list \<Rightarrow> TokenLabel list" where
  "filterNotEntities [] = []"
| "filterNotEntities (token # tokens) =
     (if Label token = ''O'' then filterNotEntities tokens
      else token # filterNotEntities tokens)"

text \<open>
  \<open>tok\<close> abbreviates a \<open>TokenLabel\<close> literal in the examples.
\<close>

definition tok :: "string \<Rightarrow> int \<Rightarrow> int \<Rightarrow> string \<Rightarrow> TokenLabel" where
  "tok s b e l = \<lparr>String = s, Offsets = \<lparr>Start = b, End = e\<rparr>, Label = l\<rparr>"

text \<open>
  \<open>label_ok\<close> holds of the labels on which one iteration does not panic: the label is not
  empty, and an \<open>S\<close> or \<open>B\<close> label has at least two bytes.
\<close>

definition label_ok :: "TokenLabel \<Rightarrow> bool" where
  "label_ok t =
     (case Label t of
        [] \<Rightarrow> False
      | c # r \<Rightarrow> if c = CHR ''S'' \<or> c = CHR ''B'' then r \<noteq> [] else True)"

text \<open>
  The source does not check that the labels follow the BIOES scheme (a comment on
  \<open>mergeEntities\<close> leaves it to be done), so well-formedness exists only as a hypothesis of
  statements about the decoder. \<open>well_formed\<close> follows the scheme as the specification
  describes it: a tag is \<open>O\<close>, or one of the prefixes \<open>S\<close>, \<open>B\<close>, \<open>I\<close>, \<open>E\<close> followed by
  \<open>-\<close> and a non-empty type; an entity is a single \<open>S\<close> tag or a run \<open>B I* E\<close> of one type;
  \<open>I\<close> and \<open>E\<close> occur only inside a run, and every run is closed. \<open>bioes cur\<close> reads the
  labels left to right, \<open>cur\<close> holding the type of the run that is open.
\<close>

definition typed_tag :: "char \<Rightarrow> string \<Rightarrow> string option" where
  "typed_tag c l =
     (case l of
        c' # d # ty \<Rightarrow> if c' = c \<and> d = CHR ''-'' \<and> ty \<noteq> [] then Some ty else None
      | _ \<Rightarrow> None)"

fun bioes :: "string option \<Rightarrow> string list \<Rightarrow> bool" where
  "bioes cur [] = (cur = None)"
| "bioes None (l # ls) =
     (if l = ''O'' then bioes None ls
      else if typed_tag CHR ''S'' l \<noteq> None then bioes None ls
      else if typed_tag CHR ''B'' l \<noteq> None then bioes (typed_tag CHR ''B'' l) ls
      else False)"
| "bioes (Some ty) (l # ls) =
     (if typed_tag CHR ''I'' l = Some ty then bioes (Some ty) ls
      else if typed_tag CHR ''E'' l = Some ty then bioes None ls
      else False)"

definition well_formed :: "TokenLabel list \<Rightarrow> bool" where
  "well_formed tokens = bioes None (map Label tokens)"

text \<open>
  The relation between the loop state of a run on a token list and that of a run on the
  filtered list: the same accumulator and text buffer, the outputs of the second the
  filtered outputs of the first, and an accumulator whose type is not \<open>O\<close>.
\<close>

definition sim :: "merge_state \<Rightarrow> merge_state \<Rightarrow> bool" where
  "sim st st' \<longleftrightarrow> buf st' = buf st \<and> textbuf st' = textbuf st \<and>
     newTokens st' = filterNotEntities (newTokens st) \<and> Label (buf st) \<noteq> ''O''"

section \<open>The tensor engine at its boundary\<close>

text \<open>
  The cells build their values through \<open>ag.Graph\<close>, \<open>nn.Affine\<close> and \<open>mat.Matrix\<close>, which
  belong to other packages. A node of the graph stands for its value; a vector is the list
  of its entries and a matrix the list of its rows. The entries are \<open>float64\<close> in the
  source and real numbers here: the statements below are equations between compositions
  of these operations, with no rounding argument in them. Shapes are fixed when a model is
  built, and the operations are applied to operands of matching shapes.
\<close>

type_synonym vec = "real list"
type_synonym mat = "real list list"

text \<open>
  Modelled from the spec: the operations of the tensor/graph engine (\<open>g.Add\<close>, \<open>g.Prod\<close>,
  \<open>g.Mul\<close>, \<open>g.Sigmoid\<close>, \<open>g.Tanh\<close>, \<open>g.NewScalar\<close>, \<open>g.ReverseSub\<close>), which the specification
  lists as elementwise add, multiply and subtract, matrix-vector multiply, sigmoid, tanh
  and scalar broadcast. \<open>g.ReverseSub(p, g.NewScalar(1.0))\<close> is the specification's
  \<open>1 - p\<close>.
\<close>

definition g_Add :: "vec \<Rightarrow> vec \<Rightarrow> vec" where
  "g_Add x1 x2 = map2 (+) x1 x2"

definition g_Prod :: "vec \<Rightarrow> vec \<Rightarrow> vec" where
  "g_Prod x1 x2 = map2 (*) x1 x2"

definition g_Mul :: "mat \<Rightarrow> vec \<Rightarrow> vec" where
  "g_Mul w x = map (\<lambda>row. sum_list (map2 (*) row x)) w"

definition sigmoid :: "real \<Rightarrow> real" where
  "sigmoid a = 1 / (1 + exp (- a))"

definition g_Sigmoid :: "vec \<Rightarrow> vec" where
  "g_Sigmoid x = map sigmoid x"

definition g_Tanh :: "vec \<Rightarrow> vec" where
  "g_Tanh x = map tanh x"

definition g_NewScalar :: "real \<Rightarrow> real" where
  "g_NewScalar v = v"

definition g_ReverseSub :: "vec \<Rightarrow> real \<Rightarrow> vec" where
  "g_ReverseSub x1 x2 = map (\<lambda>a. x2 - a) x1"

text \<open>
  Modelled from the spec: \<open>nn.Affine(g, b, w, x, w2, x2, ...)\<close>, the affine term
  \<open>b + w x + w2 x2 + ...\<close> of a gate, in which a pair whose input is absent (nil, here
  \<open>None\<close>) is left out: on the first step the recurrent term counts as zero and the term
  reduces to \<open>W x + B\<close>.
\<close>

fun affine_pairs :: "vec \<Rightarrow> (mat \<times> vec option) list \<Rightarrow> vec" where
  "affine_pairs y [] = y"
| "affine_pairs y ((w, x) # wxs) =
     affine_pairs (case x of None \<Rightarrow> y | Some x' \<Rightarrow> g_Add y (g_Mul w x')) wxs"

definition nn_Affine :: "vec \<Rightarrow> mat \<Rightarrow> vec \<Rightarrow> (mat \<times> vec option) list \<Rightarrow> vec" where
  "nn_Affine b w x wxs = affine_pairs (g_Add b (g_Mul w x)) wxs"

text \<open>
  Modelled from the spec: the methods of \<open>mat.Matrix\<close> that the importance scores call on
  the values of the gates: \<open>Clone\<close>, the elementwise \<open>Prod\<close> and \<open>ProdInPlace\<close> (which
  overwrites its receiver; the model returns the new value) and \<open>Max\<close>, the largest entry.
  The largest entry of an empty value is not given by the specification; \<open>0\<close> stands for
  it, and no statement below depends on it.
\<close>

definition Clone :: "vec \<Rightarrow> vec" where
  "Clone a = a"

definition mat_Prod :: "vec \<Rightarrow> vec \<Rightarrow> vec" where
  "mat_Prod a b = map2 (*) a b"

definition mat_ProdInPlace :: "vec \<Rightarrow> vec \<Rightarrow> vec" where
  "mat_ProdInPlace a b = map2 (*) a b"

definition mat_Max :: "vec \<Rightarrow> real" where
  "mat_Max a = (case a of [] \<Rightarrow> 0 | v # vs \<Rightarrow> fold max vs v)"

section \<open>Package ran\<close>

text \<open>
  \<open>ag.Node\<close> is an interface and \<open>*State\<close> a pointer: both can be nil, so the fields of a
  state and the entries of the history are options. The names \<open>Model\<close>, \<open>State\<close>,
  \<open>Processor\<close> and their methods exist in both packages \<open>ran\<close> and \<open>deltarnn\<close>; they carry
  the package name as a prefix here, and the fields the two packages share are written
  with their record's name (\<open>ran_State.C\<close>, \<open>deltarnn_State.C\<close>).
\<close>

record ran_Model =
  WIn :: mat
  WInRec :: mat
  BIn :: vec
  WFor :: mat
  WForRec :: mat
  BFor :: vec
  WCand :: mat
  BCand :: vec

record ran_State =
  InG :: "vec option"
  ForG :: "vec option"
  Cand :: "vec option"
  C :: "vec option"
  Y :: "vec option"

record ran_Processor =
  Model :: ran_Model
  States :: "ran_State option list"

definition ran_NewProc :: "ran_Model \<Rightarrow> ran_Processor" where
  "ran_NewProc m = \<lparr>ran_Processor.Model = m, ran_Processor.States = []\<rparr>"

text \<open>
  \<open>log.Fatal\<close> prints its message and exits the process: the append after it is never
  reached.
\<close>

definition ran_SetInitialState :: "ran_Processor \<Rightarrow> ran_State option \<Rightarrow> error + ran_Processor" where
  "ran_SetInitialState p state =
     (if length (ran_Processor.States p) > 0
      then Inl (Fatal ''ran: the initial state must be set before any input'')
      else Inr (p\<lparr>ran_Processor.States := ran_Processor.States p @ [state]\<rparr>))"

definition ran_LastState :: "ran_Processor \<Rightarrow> ran_State option" where
  "ran_LastState p =
     (let n = length (ran_Processor.States p)
      in if n = 0 then None else ran_Processor.States p ! (n - 1))"

text \<open>
  \<open>prev\<close> returns the output \<open>Y\<close> of the last state twice, as \<open>yPrev\<close> and as \<open>cPrev\<close>.
\<close>

definition ran_prev :: "ran_Processor \<Rightarrow> vec option \<times> vec option" where
  "ran_prev p =
     (case ran_LastState p of
        None \<Rightarrow> (None, None)
      | Some s \<Rightarrow> (ran_State.Y s, ran_State.Y s))"

definition ran_forward :: "ran_Processor \<Rightarrow> vec \<Rightarrow> ran_State" where
  "ran_forward p x =
     (let m = ran_Processor.Model p;
          (yPrev, cPrev) = ran_prev p;
          inG = g_Sigmoid (nn_Affine (BIn m) (WIn m) x [(WInRec m, yPrev)]);
          forG = g_Sigmoid (nn_Affine (BFor m) (WFor m) x [(WForRec m, yPrev)]);
          cand = nn_Affine (BCand m) (WCand m) x [];
          c = g_Prod inG cand;
          c = (case cPrev of None \<Rightarrow> c | Some cPrev' \<Rightarrow> g_Add c (g_Prod forG cPrev'))
      in \<lparr>InG = Some inG, ForG = Some forG, Cand = Some cand, C = Some c,
          Y = Some (g_Tanh c)\<rparr>)"

text \<open>
  \<open>Forward\<close> runs \<open>forward\<close> on each input in order, appends the new state to the history
  and collects the outputs.
\<close>

fun ran_Forward :: "ran_Processor \<Rightarrow> vec list \<Rightarrow> ran_Processor \<times> vec option list" where
  "ran_Forward p [] = (p, [])"
| "ran_Forward p (x # xs) =
     (let s = ran_forward p x;
          p' = p\<lparr>ran_Processor.States := ran_Processor.States p @ [Some s]\<rparr>;
          (p'', ys) = ran_Forward p' xs
      in (p'', ran_State.Y s # ys))"

text \<open>
  The loop of \<open>scores\<close>, \<open>for k := i; k >= 0; k--\<close>, as a recursion on \<open>k\<close>. Its state is the
  slice \<open>scores\<close> and the accumulator \<open>incForgetProd\<close>; the result is that state when the
  loop ends. \<open>scores\<close> itself returns the slice only, \<open>ran_scores_acc\<close> is the accumulator
  at that point. Reading \<open>states[i]\<close> outside the history panics, and so does a nil state
  or a nil gate.
\<close>

fun scores_loop :: "ran_State option list \<Rightarrow> nat \<Rightarrow> real list \<Rightarrow> vec \<Rightarrow> error + real list \<times> vec" where
  "scores_loop states k scores incForgetProd =
     (case states ! k of
        None \<Rightarrow> Inl NilDereference
      | Some s \<Rightarrow>
          (case ran_State.InG s of
             None \<Rightarrow> Inl NilDereference
           | Some inG \<Rightarrow>
               (case ran_State.ForG s of
                  None \<Rightarrow> Inl NilDereference
                | Some forG \<Rightarrow>
                    (let scores' = scores[k := mat_Max (mat_Prod inG incForgetProd)]
                     in case k of
                          0 \<Rightarrow> Inr (scores', incForgetProd)
                        | Suc k' \<Rightarrow>
                            scores_loop states k' scores' (mat_ProdInPlace incForgetProd forG)))))"

declare scores_loop.simps [simp del]

definition ran_scores_run :: "ran_Processor \<Rightarrow> int \<Rightarrow> error + real list \<times> vec" where
  "ran_scores_run p i =
     (let states = ran_Processor.States p;
          scores = replicate (length states) 0
      in if i < 0 \<or> int (length states) \<le> i then Inl IndexOutOfRange
         else case states ! nat i of
                None \<Rightarrow> Inl NilDereference
              | Some s \<Rightarrow>
                  (case ran_State.ForG s of
                     None \<Rightarrow> Inl NilDereference
                   | Some forG \<Rightarrow> scores_loop states (nat i) scores (Clone forG)))"

definition ran_scores :: "ran_Processor \<Rightarrow> int \<Rightarrow> error + real list" where
  "ran_scores p i = map_sum id fst (ran_scores_run p i)"

definition ran_scores_acc :: "ran_Processor \<Rightarrow> int \<Rightarrow> error + vec" where
  "ran_scores_acc p i = map_sum id snd (ran_scores_run p i)"

text \<open>
  \<open>gates_present\<close> holds of an entry of the history that is a state with both gates set,
  as every state that \<open>forward\<close> builds is; \<open>forG_value\<close> reads the forget gate of such an
  entry.
\<close>

definition gates_present :: "ran_State option \<Rightarrow> bool" where
  "gates_present so =
     (case so of None \<Rightarrow> False | Some s \<Rightarrow> ran_State.InG s \<noteq> None \<and> ran_State.ForG s \<noteq> None)"

definition forG_value :: "ran_State option \<Rightarrow> vec" where
  "forG_value so =
     (case so of
        None \<Rightarrow> []
      | Some s \<Rightarrow> (case ran_State.ForG s of None \<Rightarrow> [] | Some forG \<Rightarrow> forG))"

section \<open>Package deltarnn\<close>

record deltarnn_Model =
  W :: mat
  WRec :: mat
  B :: vec
  BPart :: vec
  Alpha :: vec
  Beta1 :: vec
  Beta2 :: vec

record deltarnn_State =
  D1 :: "vec option"
  D2 :: "vec option"
  C :: "vec option"
  P :: "vec option"
  Y :: "vec option"

record deltarnn_Processor =
  Model :: deltarnn_Model
  States :: "deltarnn_State option list"

definition deltarnn_NewProc :: "deltarnn_Model \<Rightarrow> deltarnn_Processor" where
  "deltarnn_NewProc m = \<lparr>deltarnn_Processor.Model = m, deltarnn_Processor.States = []\<rparr>"

definition deltarnn_SetInitialState ::
    "deltarnn_Processor \<Rightarrow> deltarnn_State option \<Rightarrow> error + deltarnn_Processor" where
  "deltarnn_SetInitialState p state =
     (if length (deltarnn_Processor.States p) > 0
      then Inl (Fatal ''deltarnn: the initial state must be set before any input'')
      else Inr (p\<lparr>deltarnn_Processor.States := deltarnn_Processor.States p @ [state]\<rparr>))"

definition deltarnn_LastState :: "deltarnn_Processor \<Rightarrow> deltarnn_State option" where
  "deltarnn_LastState p =
     (let n = length (deltarnn_Processor.States p)
      in if n = 0 then None else deltarnn_Processor.States p ! (n - 1))"

definition deltarnn_prev :: "deltarnn_Processor \<Rightarrow> vec option" where
  "deltarnn_prev p =
     (case deltarnn_LastState p of
        None \<Rightarrow> None
      | Some s \<Rightarrow> deltarnn_State.Y s)"

definition deltarnn_forward :: "deltarnn_Processor \<Rightarrow> vec \<Rightarrow> deltarnn_State" where
  "deltarnn_forward p x =
     (let m = deltarnn_Processor.Model p;
          yPrev = deltarnn_prev p;
          wx = g_Mul (W m) x
      in case yPrev of
           None \<Rightarrow>
             (let d1 = g_Prod (Beta1 m) wx;
                  c = g_Tanh (g_Add d1 (B m));
                  pg = g_Sigmoid (g_Add wx (BPart m));
                  y = g_Tanh (g_Prod pg c)
              in \<lparr>D1 = Some d1, D2 = None, C = Some c, P = Some pg, Y = Some y\<rparr>)
         | Some yPrev' \<Rightarrow>
             (let wyRec = g_Mul (WRec m) yPrev';
                  d1 = g_Add (g_Prod (Beta1 m) wx) (g_Prod (Beta2 m) wyRec);
                  d2 = g_Prod (g_Prod (Alpha m) wx) wyRec;
                  c = g_Tanh (g_Add (g_Add d1 d2) (B m));
                  pg = g_Sigmoid (g_Add wx (BPart m));
                  y = g_Tanh (g_Add (g_Prod pg c)
                        (g_Prod (g_ReverseSub pg (g_NewScalar 1)) yPrev'))
              in \<lparr>D1 = Some d1, D2 = Some d2, C = Some c, P = Some pg, Y = Some y\<rparr>))"

fun deltarnn_Forward ::
    "deltarnn_Processor \<Rightarrow> vec list \<Rightarrow> deltarnn_Processor \<times> vec option list" where
  "deltarnn_Forward p [] = (p, [])"
| "deltarnn_Forward p (x # xs) =
     (let s = deltarnn_forward p x;
          p' = p\<lparr>deltarnn_Processor.States := deltarnn_Processor.States p @ [Some s]\<rparr>;
          (p'', ys) = deltarnn_Forward p' xs
      in (p'', deltarnn_State.Y s # ys))"

section \<open>Example models\<close>

text \<open>
  Models with one input and one output, used where a statement is evaluated on a
  concrete run.
\<close>

definition ran_example :: ran_Model where
  "ran_example =
     \<lparr>WIn = [[0]], WInRec = [[0]], BIn = [0],
      WFor = [[1]], WForRec = [[0]], BFor = [0],
      WCand = [[0]], BCand = [2]\<rparr>"

definition deltarnn_example :: deltarnn_Model where
  "deltarnn_example =
     \<lparr>W = [[1]], WRec = [[1]], B = [0], BPart = [0], Alpha = [1], Beta1 = [1], Beta2 = [1]\<rparr>"

text \<open>
  A DeltaRNN model whose parameters all differ, and a state to seed a processor with
  through \<open>SetInitialState\<close>: its output \<open>[1]\<close> differs from its candidate \<open>[4]\<close>.
\<close>

definition deltarnn_example_mixed :: deltarnn_Model where
  "deltarnn_example_mixed =
     \<lparr>W = [[2]], WRec = [[3]], B = [13], BPart = [17], Alpha = [11], Beta1 = [5],
      Beta2 = [7]\<rparr>"

definition deltarnn_seed :: deltarnn_State where
  "deltarnn_seed = \<lparr>D1 = None, D2 = None, C = Some [4], P = None, Y = Some [1]\<rparr>"

section \<open>Theorems: the label decoder\<close>

lemmas merge_defs = mergeEntities_def merge_init_def merge_step_def empty_TokenLabel_def tok_def Let_def

text \<open>
  Claim C4. Merging the tokens New, York, is, big with the tags B-LOC, E-LOC, O, O and
  the offsets (0,3), (4,8), (9,11), (12,15) gives the entity New York of type LOC from 0
  to 8, followed by the two O tokens as they were.
\<close>

theorem C4_merge_new_york:
  "mergeEntities
     [tok ''New'' 0 3 ''B-LOC'', tok ''York'' 4 8 ''E-LOC'',
      tok ''is'' 9 11 ''O'', tok ''big'' 12 15 ''O'']
   = Inr [tok ''New York'' 0 8 ''LOC'', tok ''is'' 9 11 ''O'', tok ''big'' 12 15 ''O'']"
  by (simp add: merge_defs)

subsection \<open>The loop of mergeEntities\<close>

lemma merge_loop_append:
  "merge_loop st (xs @ ys) =
     (case merge_loop st xs of Inl e \<Rightarrow> Inl e | Inr st' \<Rightarrow> merge_loop st' ys)"
  by (induction xs arbitrary: st) (auto split: sum.splits)

lemma merge_step_ok: "label_ok t \<Longrightarrow> \<exists>st'. merge_step st t = Inr st'"
  by (auto simp: label_ok_def merge_step_def Let_def split: list.splits if_splits)

lemma merge_loop_ok: "\<forall>t\<in>set ts. label_ok t \<Longrightarrow> \<exists>st'. merge_loop st ts = Inr st'"
proof (induction ts arbitrary: st)
  case Nil
  then show ?case by simp
next
  case (Cons t ts)
  then obtain st1 where "merge_step st t = Inr st1"
    using merge_step_ok [of t st] by auto
  then show ?case using Cons by simp
qed

lemma merge_step_other:
  assumes "Label token = c # r"
    and "c \<noteq> CHR ''O''" "c \<noteq> CHR ''S''" "c \<noteq> CHR ''B''" "c \<noteq> CHR ''I''" "c \<noteq> CHR ''E''"
  shows "merge_step st token = Inr st"
  using assms by (simp add: merge_step_def)

text \<open>
  Claim C9. A token whose label begins with a byte other than \<open>O\<close>, \<open>S\<close>, \<open>B\<close>, \<open>I\<close>, \<open>E\<close>
  contributes nothing: the iteration leaves the output, the accumulator and the text
  buffer as they were, and the rest of the sequence is decoded as if the token were not
  there.
\<close>

theorem C9_unknown_prefix_skipped:
  assumes "Label token = c # r"
    and "c \<notin> {CHR ''O'', CHR ''S'', CHR ''B'', CHR ''I'', CHR ''E''}"
  shows "merge_step st token = Inr st \<and>
         merge_loop st (token # tokens) = merge_loop st tokens \<and>
         mergeEntities (xs @ token # ys) = mergeEntities (xs @ ys)"
proof -
  have step: "\<And>s. merge_step s token = Inr s"
    using assms by (simp add: merge_step_other)
  have "\<And>s. merge_loop s (token # ys) = merge_loop s ys" by (simp add: step)
  then have "merge_loop merge_init (xs @ token # ys) = merge_loop merge_init (xs @ ys)"
    by (simp add: merge_loop_append cong: sum.case_cong)
  then show ?thesis by (simp add: step mergeEntities_def)
qed

text \<open>
  An \<open>X-LOC\<close> token between \<open>B-LOC\<close> and \<open>E-LOC\<close> leaves the merged entity as it is
  without the token.
\<close>

theorem C9_unknown_prefix_skipped_witness:
  "Label (tok ''x'' 4 5 ''X-LOC'') = CHR ''X'' # ''-LOC'' \<and>
   merge_step merge_init (tok ''x'' 4 5 ''X-LOC'') = Inr merge_init \<and>
   mergeEntities ([tok ''New'' 0 3 ''B-LOC''] @ tok ''x'' 4 5 ''X-LOC'' # [tok ''York'' 6 10 ''E-LOC''])
     = Inr [tok ''New York'' 0 10 ''LOC'']"
proof -
  have l: "Label (tok ''x'' 4 5 ''X-LOC'') = CHR ''X'' # ''-LOC''" by (simp add: tok_def)
  have c: "CHR ''X'' \<notin> {CHR ''O'', CHR ''S'', CHR ''B'', CHR ''I'', CHR ''E''}" by simp
  have "mergeEntities ([tok ''New'' 0 3 ''B-LOC''] @ [tok ''York'' 6 10 ''E-LOC''])
          = Inr [tok ''New York'' 0 10 ''LOC'']"
    by (simp add: merge_defs)
  with C9_unknown_prefix_skipped [OF l c, of merge_init "[]" "[tok ''New'' 0 3 ''B-LOC'']"
      "[tok ''York'' 6 10 ''E-LOC'']"] l
  show ?thesis by simp
qed

lemma merge_step_newTokens:
  assumes "merge_step st token = Inr st'"
  shows "if take 1 (Label token) \<in> {''O'', ''S'', ''E''}
         then \<exists>out. newTokens st' = newTokens st @ [out]
         else newTokens st' = newTokens st"
  using assms
  by (cases "Label token") (auto simp: merge_step_def Let_def split: if_splits)

lemma merge_step_standalone:
  assumes "label_ok t" "take 1 (Label t) \<noteq> ''E''"
  shows "\<exists>st'. merge_step st t = Inr st' \<and>
           newTokens st' = newTokens st @
             (if take 1 (Label t) = ''O'' then [t]
              else if take 1 (Label t) = ''S'' then [t\<lparr>Label := drop 2 (Label t)\<rparr>]
              else [])"
  using assms
  by (cases "Label t") (auto simp: merge_step_def label_ok_def Let_def split: if_splits)

lemma merge_loop_no_E:
  assumes "\<forall>t\<in>set ys. label_ok t \<and> take 1 (Label t) \<noteq> ''E''"
  shows "\<exists>st'. merge_loop st ys = Inr st' \<and>
           newTokens st' = newTokens st @
             map (\<lambda>t. if take 1 (Label t) = ''S'' then t\<lparr>Label := drop 2 (Label t)\<rparr> else t)
               (filter (\<lambda>t. take 1 (Label t) \<in> {''O'', ''S''}) ys)"
  using assms
proof (induction ys arbitrary: st)
  case Nil
  then show ?case by simp
next
  case (Cons t ys)
  then have "label_ok t" "take 1 (Label t) \<noteq> ''E''" by simp_all
  from merge_step_standalone [OF this, of st] obtain st1 where
    st1: "merge_step st t = Inr st1"
      "newTokens st1 = newTokens st @
             (if take 1 (Label t) = ''O'' then [t]
              else if take 1 (Label t) = ''S'' then [t\<lparr>Label := drop 2 (Label t)\<rparr>]
              else [])" by blast
  have "\<forall>t\<in>set ys. label_ok t \<and> take 1 (Label t) \<noteq> ''E''" using Cons.prems by simp
  from Cons.IH [OF this, of st1] obtain st' where
    "merge_loop st1 ys = Inr st'"
    "newTokens st' = newTokens st1 @
             map (\<lambda>t. if take 1 (Label t) = ''S'' then t\<lparr>Label := drop 2 (Label t)\<rparr> else t)
               (filter (\<lambda>t. take 1 (Label t) \<in> {''O'', ''S''}) ys)" by blast
  then show ?case using st1 by auto
qed

text \<open>
  Claim C10. An iteration appends to the output only when the label begins with \<open>O\<close>,
  \<open>S\<close> or \<open>E\<close> (then exactly one token), and never otherwise. So when a \<open>B\<close> token is
  followed by no \<open>E\<close> token up to the end of the sequence, the output is that of the
  tokens before it, followed by the \<open>O\<close> tokens and the stripped \<open>S\<close> tokens after it:
  the entity it opened is never emitted, and the \<open>B\<close> and \<open>I\<close> tokens leave no trace.
\<close>

theorem C10_output_only_on_O_S_E:
  "(merge_step st token = Inr st' \<longrightarrow>
      (if take 1 (Label token) \<in> {''O'', ''S'', ''E''}
       then \<exists>out. newTokens st' = newTokens st @ [out]
       else newTokens st' = newTokens st)) \<and>
   (take 1 (Label b) = ''B'' \<and> (\<forall>t\<in>set (b # ys). label_ok t \<and> take 1 (Label t) \<noteq> ''E'') \<longrightarrow>
      mergeEntities (xs @ b # ys) =
        (case mergeEntities xs of
           Inl e \<Rightarrow> Inl e
         | Inr out \<Rightarrow>
             Inr (out @
               map (\<lambda>t. if take 1 (Label t) = ''S'' then t\<lparr>Label := drop 2 (Label t)\<rparr> else t)
                 (filter (\<lambda>t. take 1 (Label t) \<in> {''O'', ''S''}) ys))))"
proof (intro conjI impI)
  assume "merge_step st token = Inr st'"
  then show "if take 1 (Label token) \<in> {''O'', ''S'', ''E''}
       then \<exists>out. newTokens st' = newTokens st @ [out]
       else newTokens st' = newTokens st"
    by (rule merge_step_newTokens)
next
  let ?f = "\<lambda>t. if take 1 (Label t) = ''S'' then t\<lparr>Label := drop 2 (Label t)\<rparr> else t"
  let ?p = "\<lambda>t. take 1 (Label t) \<in> {''O'', ''S''}"
  assume a: "take 1 (Label b) = ''B'' \<and> (\<forall>t\<in>set (b # ys). label_ok t \<and> take 1 (Label t) \<noteq> ''E'')"
  then have all: "\<forall>t\<in>set (b # ys). label_ok t \<and> take 1 (Label t) \<noteq> ''E''" by simp
  have nb: "\<not> ?p b" using a by auto
  show "mergeEntities (xs @ b # ys) =
        (case mergeEntities xs of
           Inl e \<Rightarrow> Inl e
         | Inr out \<Rightarrow> Inr (out @ map ?f (filter ?p ys)))"
  proof (cases "merge_loop merge_init xs")
    case (Inl e)
    then show ?thesis by (simp add: mergeEntities_def merge_loop_append)
  next
    case (Inr s)
    from merge_loop_no_E [OF all, of s] obtain s' where
      "merge_loop s (b # ys) = Inr s'"
      "newTokens s' = newTokens s @ map ?f (filter ?p (b # ys))" by blast
    then show ?thesis using Inr nb
      by (simp add: mergeEntities_def merge_loop_append)
  qed
qed

text \<open>
  An \<open>S-PER\<close> token is emitted at once; \<open>B-LOC\<close>, \<open>I-LOC\<close> with no \<open>E-LOC\<close> after them
  are absent from the output.
\<close>

theorem C10_output_only_on_O_S_E_witness:
  "merge_step merge_init (tok ''Bob'' 0 3 ''S-PER'')
     = Inr (merge_init\<lparr>newTokens := [tok ''Bob'' 0 3 ''PER'']\<rparr>) \<and>
   (\<exists>out. newTokens (merge_init\<lparr>newTokens := [tok ''Bob'' 0 3 ''PER'']\<rparr>)
            = newTokens merge_init @ [out]) \<and>
   take 1 (Label (tok ''New'' 4 7 ''B-LOC'')) = ''B'' \<and>
   mergeEntities ([tok ''in'' 0 2 ''O''] @ tok ''New'' 4 7 ''B-LOC'' #
                  [tok ''York'' 8 12 ''I-LOC'', tok ''now'' 13 16 ''O''])
     = Inr [tok ''in'' 0 2 ''O'', tok ''now'' 13 16 ''O'']"
proof -
  let ?b = "tok ''New'' 4 7 ''B-LOC''"
  let ?ys = "[tok ''York'' 8 12 ''I-LOC'', tok ''now'' 13 16 ''O'']"
  have step: "merge_step merge_init (tok ''Bob'' 0 3 ''S-PER'')
      = Inr (merge_init\<lparr>newTokens := [tok ''Bob'' 0 3 ''PER'']\<rparr>)"
    by (simp add: merge_defs)
  have s: "take 1 (Label (tok ''Bob'' 0 3 ''S-PER'')) \<in> {''O'', ''S'', ''E''}"
    by (simp add: tok_def)
  have b: "take 1 (Label ?b) = ''B''" by (simp add: tok_def)
  have ys: "\<forall>t\<in>set (?b # ?ys). label_ok t \<and> take 1 (Label t) \<noteq> ''E''"
    by (simp add: tok_def label_ok_def)
  have xs: "mergeEntities [tok ''in'' 0 2 ''O''] = Inr [tok ''in'' 0 2 ''O'']"
    by (simp add: merge_defs)
  note inst = C10_output_only_on_O_S_E [of merge_init "tok ''Bob'' 0 3 ''S-PER''"
      "merge_init\<lparr>newTokens := [tok ''Bob'' 0 3 ''PER'']\<rparr>" ?b ?ys "[tok ''in'' 0 2 ''O'']"]
  from inst step s have p1: "\<exists>out. newTokens (merge_init\<lparr>newTokens := [tok ''Bob'' 0 3 ''PER'']\<rparr>)
            = newTokens merge_init @ [out]" by simp
  from inst b ys xs have p2: "mergeEntities ([tok ''in'' 0 2 ''O''] @ ?b # ?ys)
     = Inr [tok ''in'' 0 2 ''O'', tok ''now'' 13 16 ''O'']"
    by (simp add: tok_def)
  from step p1 b p2 show ?thesis by blast
qed

subsection \<open>Merging and filtering\<close>

lemma typed_tag_ok: "typed_tag c (Label t) = Some ty \<Longrightarrow> label_ok t"
  by (auto simp: typed_tag_def label_ok_def split: list.splits if_splits)

lemma bioes_head: "bioes cur (Label t # ls) \<Longrightarrow> label_ok t"
  by (cases cur) (auto simp: label_ok_def split: if_splits list.splits dest: typed_tag_ok)

lemma bioes_tail: "bioes cur (l # ls) \<Longrightarrow> \<exists>cur'. bioes cur' ls"
  by (cases cur) (auto split: if_splits)

lemma bioes_label_ok: "bioes cur (map Label ts) \<Longrightarrow> \<forall>t\<in>set ts. label_ok t"
proof (induction ts arbitrary: cur)
  case Nil
  then show ?case by simp
next
  case (Cons t ts)
  from Cons.prems have b: "bioes cur (Label t # map Label ts)" by simp
  from bioes_tail [OF b] obtain cur' where "bioes cur' (map Label ts)" by blast
  then have "\<forall>t\<in>set ts. label_ok t" by (rule Cons.IH)
  then show ?case using bioes_head [OF b] by simp
qed

lemma filterNotEntities_filter: "filterNotEntities ts = filter (\<lambda>t. Label t \<noteq> ''O'') ts"
  by (induction ts) auto

lemma filterNotEntities_snoc:
  "filterNotEntities (ts @ [t]) = filterNotEntities ts @ (if Label t = ''O'' then [] else [t])"
  by (simp add: filterNotEntities_filter)

lemma merge_step_O: "Label t = ''O'' \<Longrightarrow> merge_step st t = Inr (st\<lparr>newTokens := newTokens st @ [t]\<rparr>)"
  by (simp add: merge_step_def)

lemma merge_step_sim:
  assumes "sim st st'" "Label t \<noteq> ''O''" "drop 2 (Label t) \<noteq> ''O''"
  shows "case merge_step st t of
           Inl e \<Rightarrow> merge_step st' t = Inl e
         | Inr r \<Rightarrow> \<exists>r'. merge_step st' t = Inr r' \<and> sim r r'"
  using assms
  by (auto simp: sim_def merge_step_def Let_def filterNotEntities_snoc empty_TokenLabel_def
      split: list.splits)

lemma merge_loop_sim:
  assumes "\<forall>t\<in>set ts. drop 2 (Label t) \<noteq> ''O''" "sim st st'"
  shows "case merge_loop st ts of
           Inl e \<Rightarrow> merge_loop st' (filterNotEntities ts) = Inl e
         | Inr r \<Rightarrow> \<exists>r'. merge_loop st' (filterNotEntities ts) = Inr r' \<and> sim r r'"
  using assms
proof (induction ts arbitrary: st st')
  case Nil
  then show ?case by simp
next
  case (Cons t ts)
  have rest: "\<forall>t\<in>set ts. drop 2 (Label t) \<noteq> ''O''" using Cons.prems(1) by simp
  show ?case
  proof (cases "Label t = ''O''")
    case True
    have "sim (st\<lparr>newTokens := newTokens st @ [t]\<rparr>) st'"
      using Cons.prems(2) True by (simp add: sim_def filterNotEntities_snoc)
    from Cons.IH [OF rest this] show ?thesis
      using True by (simp add: merge_step_O cong: sum.case_cong)
  next
    case False
    have ty: "drop 2 (Label t) \<noteq> ''O''" using Cons.prems(1) by simp
    note step = merge_step_sim [OF Cons.prems(2) False ty]
    show ?thesis
    proof (cases "merge_step st t")
      case (Inl e)
      then show ?thesis using step False by simp
    next
      case (Inr r)
      then obtain r' where r': "merge_step st' t = Inr r'" "sim r r'" using step by auto
      from Cons.IH [OF rest r'(2)] show ?thesis using Inr r'(1) False by (simp cong: sum.case_cong)
    qed
  qed
qed


lemma sim_init: "sim merge_init merge_init"
  by (simp add: sim_def merge_init_def empty_TokenLabel_def)

text \<open>
  Claim C3, as amended. For a well-formed BIOES sequence in which no tag carries the
  entity type \<open>O\<close>, merging succeeds, and merging then filtering gives the same list
  of entities, in the same order, as filtering then merging.
\<close>

theorem C3_merge_filter_commute:
  assumes "well_formed tokens" and "\<forall>t\<in>set tokens. drop 2 (Label t) \<noteq> ''O''"
  shows "\<exists>out. mergeEntities tokens = Inr out \<and>
           mergeEntities (filterNotEntities tokens) = Inr (filterNotEntities out)"
proof -
  have "\<forall>t\<in>set tokens. label_ok t"
    using assms(1) bioes_label_ok unfolding well_formed_def by blast
  then obtain r where r: "merge_loop merge_init tokens = Inr r"
    using merge_loop_ok by blast
  with merge_loop_sim [OF assms(2) sim_init]
  obtain r' where r': "merge_loop merge_init (filterNotEntities tokens) = Inr r'" "sim r r'"
    by auto
  have "newTokens r' = filterNotEntities (newTokens r)" using r'(2) by (simp add: sim_def)
  then show ?thesis using r r'(1) by (simp add: mergeEntities_def)
qed

text \<open>
  A sequence with a two-token entity, an \<open>O\<close> token and a single-token entity.
\<close>

theorem C3_merge_filter_commute_witness:
  "well_formed [tok ''New'' 0 3 ''B-LOC'', tok ''York'' 4 8 ''E-LOC'', tok ''is'' 9 11 ''O'',
                tok ''Bob'' 12 15 ''S-PER''] \<and>
   list_all (\<lambda>t. drop 2 (Label t) \<noteq> ''O'')
     [tok ''New'' 0 3 ''B-LOC'', tok ''York'' 4 8 ''E-LOC'', tok ''is'' 9 11 ''O'',
      tok ''Bob'' 12 15 ''S-PER''] \<and>
   (\<exists>out. mergeEntities [tok ''New'' 0 3 ''B-LOC'', tok ''York'' 4 8 ''E-LOC'',
                         tok ''is'' 9 11 ''O'', tok ''Bob'' 12 15 ''S-PER''] = Inr out \<and>
          mergeEntities (filterNotEntities [tok ''New'' 0 3 ''B-LOC'', tok ''York'' 4 8 ''E-LOC'',
                         tok ''is'' 9 11 ''O'', tok ''Bob'' 12 15 ''S-PER''])
            = Inr (filterNotEntities out))"
proof -
  let ?ts = "[tok ''New'' 0 3 ''B-LOC'', tok ''York'' 4 8 ''E-LOC'', tok ''is'' 9 11 ''O'',
              tok ''Bob'' 12 15 ''S-PER'']"
  have wf: "well_formed ?ts" by (simp add: well_formed_def typed_tag_def tok_def)
  have ty: "\<forall>t\<in>set ?ts. drop 2 (Label t) \<noteq> ''O''" by (simp add: tok_def)
  have ty': "list_all (\<lambda>t. drop 2 (Label t) \<noteq> ''O'') ?ts" by (simp add: tok_def)
  from C3_merge_filter_commute [OF wf ty] wf ty' show ?thesis by blast
qed

text \<open>
  Claim C3 as stated fails on the well-formed one-token sequence tagged \<open>S-O\<close>: merging
  strips the tag to the type \<open>O\<close>, which the filter then drops as a non-entity, while
  the filter applied first keeps \<open>S-O\<close> and merging emits the entity.
\<close>

theorem C3_type_O_counterexample:
  "well_formed [tok ''Bob'' 0 3 ''S-O''] \<and>
   map_sum id filterNotEntities (mergeEntities [tok ''Bob'' 0 3 ''S-O'']) = Inr [] \<and>
   mergeEntities (filterNotEntities [tok ''Bob'' 0 3 ''S-O'']) = Inr [tok ''Bob'' 0 3 ''O'']"
  by (simp add: well_formed_def typed_tag_def merge_defs)

section \<open>Theorems: the recurrent cells\<close>

subsection \<open>Arithmetic of the engine\<close>

lemma g_Add_commute: "g_Add a b = g_Add b a"
  unfolding g_Add_def
proof (induction a arbitrary: b)
  case Nil
  show ?case by simp
next
  case (Cons x a)
  show ?case by (cases b) (simp_all add: Cons.IH add.commute)
qed

lemma sigmoid_0: "sigmoid 0 = 1 / 2"
  by (simp add: sigmoid_def)

lemma sigmoid_pos: "0 < sigmoid a"
  by (simp add: sigmoid_def add_pos_pos)

lemma sigmoid_1_neq_half: "sigmoid 1 \<noteq> 1 / 2"
proof
  assume "sigmoid 1 = 1 / 2"
  then have "1 + exp (- 1 :: real) = 2"
    by (simp add: sigmoid_def field_simps)
  then have "exp (- 1 :: real) = 1" by simp
  then show False by simp
qed

lemmas graph_defs = g_Add_def g_Prod_def g_Mul_def g_Sigmoid_def g_Tanh_def g_NewScalar_def
  g_ReverseSub_def nn_Affine_def

subsection \<open>The state history\<close>

lemma ran_Forward_length:
  "length (ran_Processor.States (fst (ran_Forward p xs)))
     = length (ran_Processor.States p) + length xs"
  by (induction xs arbitrary: p) (simp_all add: Let_def split_beta)

lemma deltarnn_Forward_length:
  "length (deltarnn_Processor.States (fst (deltarnn_Forward p xs)))
     = length (deltarnn_Processor.States p) + length xs"
  by (induction xs arbitrary: p) (simp_all add: Let_def split_beta)

text \<open>
  Claim C8. For both encoders, \<open>SetInitialState\<close> on an empty history succeeds and makes
  the given state the only entry; on a non-empty history it ends in the fatal error, at
  the call and with nothing appended. The history is non-empty after \<open>Forward\<close> on at
  least one input and after a \<open>SetInitialState\<close> that succeeded.
\<close>

theorem C8_SetInitialState:
  "(ran_Processor.States p = [] \<longrightarrow>
      ran_SetInitialState p s = Inr (p\<lparr>ran_Processor.States := [s]\<rparr>)) \<and>
   (ran_Processor.States p \<noteq> [] \<longrightarrow>
      ran_SetInitialState p s = Inl (Fatal ''ran: the initial state must be set before any input'')) \<and>
   (xs \<noteq> [] \<longrightarrow>
      ran_SetInitialState (fst (ran_Forward p xs)) s
        = Inl (Fatal ''ran: the initial state must be set before any input'')) \<and>
   (ran_SetInitialState p s = Inr p' \<longrightarrow>
      ran_SetInitialState p' s'
        = Inl (Fatal ''ran: the initial state must be set before any input'')) \<and>
   (deltarnn_Processor.States q = [] \<longrightarrow>
      deltarnn_SetInitialState q t = Inr (q\<lparr>deltarnn_Processor.States := [t]\<rparr>)) \<and>
   (deltarnn_Processor.States q \<noteq> [] \<longrightarrow>
      deltarnn_SetInitialState q t
        = Inl (Fatal ''deltarnn: the initial state must be set before any input'')) \<and>
   (xs \<noteq> [] \<longrightarrow>
      deltarnn_SetInitialState (fst (deltarnn_Forward q xs)) t
        = Inl (Fatal ''deltarnn: the initial state must be set before any input'')) \<and>
   (deltarnn_SetInitialState q t = Inr q' \<longrightarrow>
      deltarnn_SetInitialState q' t'
        = Inl (Fatal ''deltarnn: the initial state must be set before any input''))"
proof -
  have r: "xs \<noteq> [] \<Longrightarrow> length (ran_Processor.States (fst (ran_Forward p xs))) > 0"
    by (simp add: ran_Forward_length)
  have d: "xs \<noteq> [] \<Longrightarrow> length (deltarnn_Processor.States (fst (deltarnn_Forward q xs))) > 0"
    by (simp add: deltarnn_Forward_length)
  show ?thesis
    using r d
    by (auto simp: ran_SetInitialState_def deltarnn_SetInitialState_def split: if_splits)
qed

text \<open>
  On fresh processors the first call succeeds; a second call, and a call after one
  processed input, are fatal.
\<close>

theorem C8_SetInitialState_witness:
  "ran_Processor.States (ran_NewProc ran_example) = [] \<and>
   ran_SetInitialState (ran_NewProc ran_example) None
     = Inr ((ran_NewProc ran_example)\<lparr>ran_Processor.States := [None]\<rparr>) \<and>
   ran_Processor.States ((ran_NewProc ran_example)\<lparr>ran_Processor.States := [None]\<rparr>) \<noteq> [] \<and>
   ran_SetInitialState ((ran_NewProc ran_example)\<lparr>ran_Processor.States := [None]\<rparr>) None
     = Inl (Fatal ''ran: the initial state must be set before any input'') \<and>
   [[0::real]] \<noteq> [] \<and>
   ran_SetInitialState (fst (ran_Forward (ran_NewProc ran_example) [[0]])) None
     = Inl (Fatal ''ran: the initial state must be set before any input'') \<and>
   deltarnn_Processor.States (deltarnn_NewProc deltarnn_example) = [] \<and>
   deltarnn_SetInitialState (deltarnn_NewProc deltarnn_example) None
     = Inr ((deltarnn_NewProc deltarnn_example)\<lparr>deltarnn_Processor.States := [None]\<rparr>) \<and>
   deltarnn_Processor.States
       ((deltarnn_NewProc deltarnn_example)\<lparr>deltarnn_Processor.States := [None]\<rparr>) \<noteq> [] \<and>
   deltarnn_SetInitialState
       ((deltarnn_NewProc deltarnn_example)\<lparr>deltarnn_Processor.States := [None]\<rparr>) None
     = Inl (Fatal ''deltarnn: the initial state must be set before any input'') \<and>
   deltarnn_SetInitialState (fst (deltarnn_Forward (deltarnn_NewProc deltarnn_example) [[0]])) None
     = Inl (Fatal ''deltarnn: the initial state must be set before any input'')"
proof -
  let ?r0 = "ran_NewProc ran_example"
  let ?r1 = "?r0\<lparr>ran_Processor.States := [None]\<rparr>"
  let ?d0 = "deltarnn_NewProc deltarnn_example"
  let ?d1 = "?d0\<lparr>deltarnn_Processor.States := [None]\<rparr>"
  have r0: "ran_Processor.States ?r0 = []" by (simp add: ran_NewProc_def)
  have d0: "deltarnn_Processor.States ?d0 = []" by (simp add: deltarnn_NewProc_def)
  have r1: "ran_Processor.States ?r1 \<noteq> []" by simp
  have d1: "deltarnn_Processor.States ?d1 \<noteq> []" by simp
  have xs: "[[0::real]] \<noteq> []" by simp
  note a = C8_SetInitialState [of ?r0 None "[[0]]" ?r1 None ?d0 None ?d1 None]
  note b = C8_SetInitialState [of ?r1 None "[[0]]" ?r1 None ?d1 None ?d1 None]
  from a r0 d0 xs have
    "ran_SetInitialState ?r0 None = Inr ?r1"
    "ran_SetInitialState (fst (ran_Forward ?r0 [[0]])) None
       = Inl (Fatal ''ran: the initial state must be set before any input'')"
    "ran_SetInitialState ?r1 None
       = Inl (Fatal ''ran: the initial state must be set before any input'')"
    "deltarnn_SetInitialState ?d0 None = Inr ?d1"
    "deltarnn_SetInitialState (fst (deltarnn_Forward ?d0 [[0]])) None
       = Inl (Fatal ''deltarnn: the initial state must be set before any input'')"
    "deltarnn_SetInitialState ?d1 None
       = Inl (Fatal ''deltarnn: the initial state must be set before any input'')"
    by blast+
  moreover from b r1 d1 have
    "ran_SetInitialState ?r1 None
       = Inl (Fatal ''ran: the initial state must be set before any input'')"
    "deltarnn_SetInitialState ?d1 None
       = Inl (Fatal ''deltarnn: the initial state must be set before any input'')"
    by blast+
  ultimately show ?thesis using r0 d0 r1 d1 xs by blast
qed

subsection \<open>The RAN step\<close>

text \<open>
  Claim C7. On the first RAN step, with no previous state, \<open>prev\<close> returns no previous
  output and no previous cell value; the affine term of each gate, whose recurrent pair is
  left out, is \<open>W x + B\<close>; and the cell value is the product of input gate and candidate,
  with no forget term.
\<close>

theorem C7_ran_first_step:
  assumes "ran_LastState p = None"
  shows "ran_prev p = (None, None) \<and>
         nn_Affine (BIn (ran_Processor.Model p)) (WIn (ran_Processor.Model p)) x
             [(WInRec (ran_Processor.Model p), fst (ran_prev p))]
           = g_Add (g_Mul (WIn (ran_Processor.Model p)) x) (BIn (ran_Processor.Model p)) \<and>
         nn_Affine (BFor (ran_Processor.Model p)) (WFor (ran_Processor.Model p)) x
             [(WForRec (ran_Processor.Model p), fst (ran_prev p))]
           = g_Add (g_Mul (WFor (ran_Processor.Model p)) x) (BFor (ran_Processor.Model p)) \<and>
         (\<exists>inG forG cand.
            inG = g_Sigmoid (g_Add (g_Mul (WIn (ran_Processor.Model p)) x)
                                   (BIn (ran_Processor.Model p))) \<and>
            forG = g_Sigmoid (g_Add (g_Mul (WFor (ran_Processor.Model p)) x)
                                    (BFor (ran_Processor.Model p))) \<and>
            cand = g_Add (g_Mul (WCand (ran_Processor.Model p)) x)
                         (BCand (ran_Processor.Model p)) \<and>
            ran_forward p x =
              \<lparr>InG = Some inG, ForG = Some forG, Cand = Some cand,
               C = Some (g_Prod inG cand), Y = Some (g_Tanh (g_Prod inG cand))\<rparr>)"
proof -
  have prev: "ran_prev p = (None, None)" using assms by (simp add: ran_prev_def)
  have aff: "\<And>b w wr. nn_Affine b w x [(wr, None)] = g_Add (g_Mul w x) b"
    by (simp add: nn_Affine_def g_Add_commute)
  have aff0: "\<And>b w. nn_Affine b w x [] = g_Add (g_Mul w x) b"
    by (simp add: nn_Affine_def g_Add_commute)
  show ?thesis
    by (simp add: prev aff aff0 ran_forward_def Let_def)
qed

text \<open>
  The first step of a fresh processor on the example model.
\<close>

theorem C7_ran_first_step_witness:
  "ran_LastState (ran_NewProc ran_example) = None \<and>
   ran_State.InG (ran_forward (ran_NewProc ran_example) [0]) = Some [1 / 2] \<and>
   ran_State.C (ran_forward (ran_NewProc ran_example) [0]) = Some [1]"
proof -
  have h: "ran_LastState (ran_NewProc ran_example) = None"
    by (simp add: ran_LastState_def ran_NewProc_def)
  from C7_ran_first_step [OF h, of "[0]"] h show ?thesis
    by (simp add: ran_NewProc_def ran_example_def graph_defs sigmoid_0)
qed

text \<open>
  A step with a previous state whose output is set: the cell value adds the forget gate
  times that previous output to the product of input gate and candidate, and the output is
  the \<open>tanh\<close> of the cell value. The field \<open>C\<close> of the previous state is not read.
\<close>

lemma ran_forward_with_prev:
  assumes "ran_LastState p = Some sPrev" and "ran_State.Y sPrev = Some yPrev"
  shows "\<exists>inG forG cand c.
           c = g_Add (g_Prod inG cand) (g_Prod forG yPrev) \<and>
           ran_forward p x =
             \<lparr>InG = Some inG, ForG = Some forG, Cand = Some cand, C = Some c,
              Y = Some (g_Tanh c)\<rparr>"
  using assms by (simp add: ran_forward_def ran_prev_def Let_def)

lemma ran_example_step0:
  "ran_forward (ran_NewProc ran_example) [0] =
     \<lparr>InG = Some [1 / 2], ForG = Some [1 / 2], Cand = Some [2], C = Some [1],
      Y = Some [tanh 1]\<rparr>"
  by (simp add: ran_forward_def ran_prev_def ran_LastState_def ran_NewProc_def ran_example_def
      graph_defs Let_def sigmoid_0)

lemma ran_example_step1:
  "ran_forward
     ((ran_NewProc ran_example)\<lparr>ran_Processor.States :=
        [Some \<lparr>InG = Some [1 / 2], ForG = Some [1 / 2], Cand = Some [2], C = Some [1],
               Y = Some [tanh 1]\<rparr>]\<rparr>) [1] =
     \<lparr>InG = Some [1 / 2], ForG = Some [sigmoid 1], Cand = Some [2],
      C = Some [1 + sigmoid 1 * tanh 1], Y = Some [tanh (1 + sigmoid 1 * tanh 1)]\<rparr>"
  by (simp add: ran_forward_def ran_prev_def ran_LastState_def ran_NewProc_def ran_example_def
      graph_defs Let_def sigmoid_0)

lemma ran_example_Forward1:
  "fst (ran_Forward (ran_NewProc ran_example) [[0]]) =
     (ran_NewProc ran_example)\<lparr>ran_Processor.States :=
        [Some \<lparr>InG = Some [1 / 2], ForG = Some [1 / 2], Cand = Some [2], C = Some [1],
               Y = Some [tanh 1]\<rparr>]\<rparr>"
  by (simp add: ran_example_step0 Let_def) (simp add: ran_NewProc_def)

text \<open>
  Claim C1 on a run of the example model. After the input \<open>[0]\<close> the last state has the
  cell value \<open>[1]\<close> and the output \<open>[tanh 1]\<close>. The step on \<open>[1]\<close> then has the gates
  \<open>[1/2]\<close> and \<open>[sigmoid 1]\<close> and the candidate \<open>[2]\<close>, its output is the \<open>tanh\<close> of its cell
  value, and its cell value is the input gate times the candidate plus the forget gate
  times the previous output \<open>[tanh 1]\<close>; it is not the value the claim gives, with the
  previous cell value \<open>[1]\<close> in that place.
\<close>

theorem C1_ran_forward_reads_prev_output:
  "ran_LastState (fst (ran_Forward (ran_NewProc ran_example) [[0]])) =
     Some \<lparr>InG = Some [1 / 2], ForG = Some [1 / 2], Cand = Some [2], C = Some [1],
           Y = Some [tanh 1]\<rparr> \<and>
   ran_forward (fst (ran_Forward (ran_NewProc ran_example) [[0]])) [1] =
     \<lparr>InG = Some [1 / 2], ForG = Some [sigmoid 1], Cand = Some [2],
      C = Some (g_Add (g_Prod [1 / 2] [2]) (g_Prod [sigmoid 1] [tanh 1])),
      Y = Some (g_Tanh (g_Add (g_Prod [1 / 2] [2]) (g_Prod [sigmoid 1] [tanh 1])))\<rparr> \<and>
   ran_State.C (ran_forward (fst (ran_Forward (ran_NewProc ran_example) [[0]])) [1])
     \<noteq> Some (g_Add (g_Prod [1 / 2] [2]) (g_Prod [sigmoid 1] [1]))"
proof -
  have a: "sigmoid 1 \<noteq> 0" using sigmoid_pos [of 1] by simp
  have b: "tanh (1::real) \<noteq> 1" using tanh_real_lt_1 [of 1] by simp
  have last: "ran_LastState (fst (ran_Forward (ran_NewProc ran_example) [[0]])) =
     Some \<lparr>InG = Some [1 / 2], ForG = Some [1 / 2], Cand = Some [2], C = Some [1],
           Y = Some [tanh 1]\<rparr>"
    by (simp only: ran_example_Forward1) (simp add: ran_LastState_def)
  have step: "ran_forward (fst (ran_Forward (ran_NewProc ran_example) [[0]])) [1] =
     \<lparr>InG = Some [1 / 2], ForG = Some [sigmoid 1], Cand = Some [2],
      C = Some [1 + sigmoid 1 * tanh 1], Y = Some [tanh (1 + sigmoid 1 * tanh 1)]\<rparr>"
    by (simp only: ran_example_Forward1 ran_example_step1)
  show ?thesis
    unfolding last step using a b by (simp add: g_Add_def g_Prod_def g_Tanh_def)
qed

subsection \<open>The importance scores\<close>

lemma gates_presentE:
  assumes "gates_present so"
  obtains s inG where "so = Some s" "ran_State.InG s = Some inG"
    "ran_State.ForG s = Some (forG_value so)"
  using assms by (auto simp: gates_present_def forG_value_def split: option.splits)

lemma scores_loop_acc:
  assumes "\<forall>so\<in>set states. gates_present so" and "k < length states"
  shows "\<exists>sc. scores_loop states k scores acc =
           Inr (sc, foldl mat_Prod acc (map (\<lambda>j. forG_value (states ! j)) (rev [1..<Suc k])))"
  using assms(2)
proof (induction k arbitrary: scores acc)
  case 0
  then have "gates_present (states ! 0)" using assms(1) by (simp add: nth_mem)
  then obtain s inG where "states ! 0 = Some s" "ran_State.InG s = Some inG"
    "ran_State.ForG s = Some (forG_value (states ! 0))" by (rule gates_presentE)
  then show ?case by (subst scores_loop.simps) simp
next
  case (Suc k)
  then have "gates_present (states ! Suc k)" using assms(1) by (simp add: nth_mem)
  then obtain s inG where s: "states ! Suc k = Some s" "ran_State.InG s = Some inG"
    "ran_State.ForG s = Some (forG_value (states ! Suc k))" by (rule gates_presentE)
  have "k < length states" using Suc.prems by simp
  from Suc.IH [OF this] obtain sc where
    "scores_loop states k (scores[Suc k := mat_Max (mat_Prod inG acc)])
       (mat_ProdInPlace acc (forG_value (states ! Suc k))) =
     Inr (sc, foldl mat_Prod (mat_ProdInPlace acc (forG_value (states ! Suc k)))
                (map (\<lambda>j. forG_value (states ! j)) (rev [1..<Suc k])))"
    by blast
  then show ?case using s
    by (subst scores_loop.simps) (simp add: mat_ProdInPlace_def mat_Prod_def)
qed

lemma ran_Forward_gates_present:
  assumes "\<forall>so\<in>set (ran_Processor.States p). gates_present so"
  shows "\<forall>so\<in>set (ran_Processor.States (fst (ran_Forward p xs))). gates_present so"
  using assms
proof (induction xs arbitrary: p)
  case Nil
  then show ?case by simp
next
  case (Cons x xs)
  have "gates_present (Some (ran_forward p x))"
    by (simp add: gates_present_def ran_forward_def Let_def split_beta)
  then have "\<forall>so\<in>set (ran_Processor.States
                (p\<lparr>ran_Processor.States := ran_Processor.States p @ [Some (ran_forward p x)]\<rparr>)).
              gates_present so"
    using Cons.prems by simp
  from Cons.IH [OF this] show ?case by (simp add: Let_def split_beta)
qed

text \<open>
  Claim C2, as amended. For a history whose states have their gates set (every encoded
  sequence is one) and a row \<open>i\<close> inside it, the accumulator at the end of the backward
  pass for row \<open>i\<close> is the seed \<open>forG[i]\<close> multiplied elementwise by the forget gates of
  the steps \<open>i, i - 1, ..., 1\<close> in that order: \<open>forG[i]\<close> enters twice when \<open>i > 0\<close>,
  \<open>forG[0]\<close> never does, and for \<open>i = 0\<close> the accumulator is \<open>forG[0]\<close>.
\<close>

theorem C2_scores_accumulator:
  assumes "\<forall>so\<in>set (ran_Processor.States p). gates_present so"
    and "i < length (ran_Processor.States p)"
  shows "ran_scores_acc p (int i) =
           Inr (foldl mat_Prod (forG_value (ran_Processor.States p ! i))
                  (map (\<lambda>k. forG_value (ran_Processor.States p ! k)) (rev [1..<Suc i])))"
proof -
  have "gates_present (ran_Processor.States p ! i)" using assms by (simp add: nth_mem)
  then obtain s inG where s: "ran_Processor.States p ! i = Some s"
    "ran_State.ForG s = Some (forG_value (ran_Processor.States p ! i))"
    by (rule gates_presentE)
  from scores_loop_acc [OF assms, of "replicate (length (ran_Processor.States p)) 0"
      "forG_value (ran_Processor.States p ! i)"]
  show ?thesis using s assms(2)
    by (auto simp: ran_scores_acc_def ran_scores_run_def Let_def Clone_def)
qed

lemma ran_example_Forward2:
  "fst (ran_Forward (ran_NewProc ran_example) [[0], [1]]) =
     (ran_NewProc ran_example)\<lparr>ran_Processor.States :=
        [Some \<lparr>InG = Some [1 / 2], ForG = Some [1 / 2], Cand = Some [2], C = Some [1],
               Y = Some [tanh 1]\<rparr>,
         Some \<lparr>InG = Some [1 / 2], ForG = Some [sigmoid 1], Cand = Some [2],
               C = Some [1 + sigmoid 1 * tanh 1],
               Y = Some [tanh (1 + sigmoid 1 * tanh 1)]\<rparr>]\<rparr>"
proof -
  have "ran_Processor.States (ran_NewProc ran_example) = []" by (simp add: ran_NewProc_def)
  then show ?thesis
    using ran_example_step1
    by (simp add: ran_example_step0 Let_def split_beta)
qed

text \<open>
  Row 1 of the example run on the inputs \<open>[0]\<close>, \<open>[1]\<close>.
\<close>

theorem C2_scores_accumulator_witness:
  "list_all gates_present
     (ran_Processor.States (fst (ran_Forward (ran_NewProc ran_example) [[0], [1]]))) \<and>
   1 < length (ran_Processor.States (fst (ran_Forward (ran_NewProc ran_example) [[0], [1]]))) \<and>
   ran_scores_acc (fst (ran_Forward (ran_NewProc ran_example) [[0], [1]])) (int 1)
     = Inr [sigmoid 1 * sigmoid 1]"
proof -
  let ?p = "fst (ran_Forward (ran_NewProc ran_example) [[0], [1]])"
  have g: "\<forall>so\<in>set (ran_Processor.States ?p). gates_present so"
    by (rule ran_Forward_gates_present) (simp add: ran_NewProc_def)
  have l: "1 < length (ran_Processor.States ?p)"
    unfolding ran_example_Forward2 by simp
  note inst = C2_scores_accumulator [OF g l]
  have "ran_scores_acc ?p (int 1) = Inr [sigmoid 1 * sigmoid 1]"
    using inst unfolding ran_example_Forward2
    by (simp add: forG_value_def mat_Prod_def)
  then show ?thesis using g l by (simp add: list_all_iff)
qed

text \<open>
  Claim C2 as stated fails on that run: the forget gates are \<open>[1/2]\<close> and \<open>[sigmoid 1]\<close>,
  the accumulator for row 1 is \<open>[sigmoid 1 * sigmoid 1]\<close>, and the product of the forget
  gates of the steps 0 and 1 is another value.
\<close>

theorem C2_product_from_step_0_counterexample:
  "map forG_value (ran_Processor.States (fst (ran_Forward (ran_NewProc ran_example) [[0], [1]])))
     = [[1 / 2], [sigmoid 1]] \<and>
   ran_scores_acc (fst (ran_Forward (ran_NewProc ran_example) [[0], [1]])) 1
     = Inr [sigmoid 1 * sigmoid 1] \<and>
   ran_scores_acc (fst (ran_Forward (ran_NewProc ran_example) [[0], [1]])) 1
     \<noteq> Inr (mat_Prod [1 / 2] [sigmoid 1])"
proof -
  have a: "sigmoid 1 \<noteq> 0" using sigmoid_pos [of 1] by simp
  show ?thesis
    unfolding ran_example_Forward2 using a sigmoid_1_neq_half
    by (simp add: forG_value_def mat_Prod_def mat_ProdInPlace_def mat_Max_def Clone_def
        ran_scores_acc_def ran_scores_run_def scores_loop.simps Let_def)
qed

subsection \<open>The DeltaRNN step\<close>

text \<open>
  Claim C6. On the first DeltaRNN step, with no previous output, the partition gate is
  \<open>sigmoid (W x + BPart)\<close> and the output is \<open>tanh\<close> of the gate times
  \<open>tanh (Beta1 * (W x) + B)\<close>; the state has no \<open>d2\<close> term and the output no interpolation
  term.
\<close>

theorem C6_deltarnn_first_step:
  assumes "deltarnn_prev p = None"
  shows "deltarnn_State.P (deltarnn_forward p x)
           = Some (g_Sigmoid (g_Add (g_Mul (W (deltarnn_Processor.Model p)) x)
                                    (BPart (deltarnn_Processor.Model p)))) \<and>
         deltarnn_State.Y (deltarnn_forward p x)
           = Some (g_Tanh (g_Prod
               (g_Sigmoid (g_Add (g_Mul (W (deltarnn_Processor.Model p)) x)
                                 (BPart (deltarnn_Processor.Model p))))
               (g_Tanh (g_Add (g_Prod (Beta1 (deltarnn_Processor.Model p))
                                      (g_Mul (W (deltarnn_Processor.Model p)) x))
                              (B (deltarnn_Processor.Model p)))))) \<and>
         deltarnn_State.D2 (deltarnn_forward p x) = None"
  using assms by (simp add: deltarnn_forward_def Let_def)

text \<open>
  The first step of a fresh processor on the example model.
\<close>

theorem C6_deltarnn_first_step_witness:
  "deltarnn_prev (deltarnn_NewProc deltarnn_example) = None \<and>
   deltarnn_State.Y (deltarnn_forward (deltarnn_NewProc deltarnn_example) [0]) = Some [0] \<and>
   deltarnn_State.D2 (deltarnn_forward (deltarnn_NewProc deltarnn_example) [0]) = None"
proof -
  have h: "deltarnn_prev (deltarnn_NewProc deltarnn_example) = None"
    by (simp add: deltarnn_prev_def deltarnn_LastState_def deltarnn_NewProc_def)
  from C6_deltarnn_first_step [OF h, of "[0]"] h show ?thesis
    by (simp add: deltarnn_NewProc_def deltarnn_example_def graph_defs)
qed

text \<open>
  Claim C5. On a DeltaRNN step whose history ends in a state \<open>sPrev\<close> with the output
  \<open>yPrev\<close>, \<open>prev\<close> returns that \<open>yPrev\<close>, and the new state holds
  \<open>d1 = Beta1 * wx + Beta2 * wyRec\<close>, \<open>d2 = Alpha * wx * wyRec\<close>,
  \<open>c = tanh (d1 + d2 + B)\<close>, the partition gate \<open>sigmoid (wx + BPart)\<close> and the output
  \<open>tanh (gate * c + (1 - gate) * yPrev)\<close>, where \<open>wx = W x\<close>, \<open>wyRec = WRec yPrev\<close> and
  the products are elementwise.
\<close>

theorem C5_deltarnn_step:
  assumes "deltarnn_Processor.States p = ss @ [Some sPrev]"
    and "deltarnn_State.Y sPrev = Some yPrev"
  shows "deltarnn_LastState p = Some sPrev \<and>
         deltarnn_prev p = Some yPrev \<and>
         (\<exists>wx wyRec d1 d2 c pg.
           wx = g_Mul (W (deltarnn_Processor.Model p)) x \<and>
           wyRec = g_Mul (WRec (deltarnn_Processor.Model p)) yPrev \<and>
           d1 = g_Add (g_Prod (Beta1 (deltarnn_Processor.Model p)) wx)
                      (g_Prod (Beta2 (deltarnn_Processor.Model p)) wyRec) \<and>
           d2 = g_Prod (g_Prod (Alpha (deltarnn_Processor.Model p)) wx) wyRec \<and>
           c = g_Tanh (g_Add (g_Add d1 d2) (B (deltarnn_Processor.Model p))) \<and>
           pg = g_Sigmoid (g_Add wx (BPart (deltarnn_Processor.Model p))) \<and>
           deltarnn_forward p x =
             \<lparr>D1 = Some d1, D2 = Some d2, C = Some c, P = Some pg,
              Y = Some (g_Tanh (g_Add (g_Prod pg c)
                                      (g_Prod (map (\<lambda>a. 1 - a) pg) yPrev)))\<rparr>)"
proof -
  have last: "deltarnn_LastState p = Some sPrev"
    using assms(1) by (simp add: deltarnn_LastState_def)
  then have prev: "deltarnn_prev p = Some yPrev"
    using assms(2) by (simp add: deltarnn_prev_def)
  show ?thesis
    by (simp add: last prev deltarnn_forward_def Let_def g_ReverseSub_def g_NewScalar_def)
qed

text \<open>
  A processor of the model with mixed parameters, seeded with a state whose output is
  \<open>[1]\<close>, on the input \<open>[1]\<close>: \<open>wx = [2]\<close>, \<open>wyRec = [3]\<close>, \<open>d1 = [5 * 2 + 7 * 3]\<close>,
  \<open>d2 = [11 * 2 * 3]\<close>, \<open>c = [tanh (31 + 66 + 13)]\<close>, the partition gate is
  \<open>[sigmoid (2 + 17)]\<close>, and the output keeps the interpolation term
  \<open>(1 - sigmoid 19) * 1\<close>.
\<close>

theorem C5_deltarnn_step_witness:
  "deltarnn_SetInitialState (deltarnn_NewProc deltarnn_example_mixed) (Some deltarnn_seed)
     = Inr ((deltarnn_NewProc deltarnn_example_mixed)
              \<lparr>deltarnn_Processor.States := [Some deltarnn_seed]\<rparr>) \<and>
   deltarnn_State.Y deltarnn_seed = Some [1] \<and>
   deltarnn_prev ((deltarnn_NewProc deltarnn_example_mixed)
                    \<lparr>deltarnn_Processor.States := [Some deltarnn_seed]\<rparr>) = Some [1] \<and>
   deltarnn_forward ((deltarnn_NewProc deltarnn_example_mixed)
                       \<lparr>deltarnn_Processor.States := [Some deltarnn_seed]\<rparr>) [1] =
     \<lparr>D1 = Some [31], D2 = Some [66], C = Some [tanh 110], P = Some [sigmoid 19],
      Y = Some [tanh (sigmoid 19 * tanh 110 + (1 - sigmoid 19) * 1)]\<rparr>"
proof -
  let ?p = "(deltarnn_NewProc deltarnn_example_mixed)
              \<lparr>deltarnn_Processor.States := [Some deltarnn_seed]\<rparr>"
  have seed: "deltarnn_SetInitialState (deltarnn_NewProc deltarnn_example_mixed)
                (Some deltarnn_seed) = Inr ?p"
    by (simp add: deltarnn_SetInitialState_def deltarnn_NewProc_def)
  have st: "deltarnn_Processor.States ?p = [] @ [Some deltarnn_seed]" by simp
  have y: "deltarnn_State.Y deltarnn_seed = Some [1]" by (simp add: deltarnn_seed_def)
  have m: "deltarnn_Processor.Model ?p = deltarnn_example_mixed"
    by (simp add: deltarnn_NewProc_def)
  note inst = C5_deltarnn_step [OF st y, of "[1]"]
  from inst have prev: "deltarnn_prev ?p = Some [1]" by blast
  from inst have step: "deltarnn_forward ?p [1] =
     \<lparr>D1 = Some [31], D2 = Some [66], C = Some [tanh 110], P = Some [sigmoid 19],
      Y = Some [tanh (sigmoid 19 * tanh 110 + (1 - sigmoid 19) * 1)]\<rparr>"
    unfolding m by (simp add: deltarnn_example_mixed_def graph_defs)
  from seed y prev step show ?thesis by blast
qed

end
